theory Spec2Isabelle
  imports Main
begin

section \<open>Message envelopes\<close>

text \<open>
  The payload of an envelope is a Python \<^verbatim>\<open>Dict[str, Any]\<close>. Its values are JSON values;
  a dictionary is kept as the list of its items in insertion order, looked up with
  \<^const>\<open>map_of\<close> (Python's \<^verbatim>\<open>d.get(k)\<close>). Numbers are kept as integers: the
  services read no number from a payload, they only test a value for truth.
\<close>

datatype json =
    JNull
  | JBool bool
  | JNum int
  | JStr string
  | JList "json list"
  | JDict "(string \<times> json) list"

text \<open>Python truthiness, as tested by \<^verbatim>\<open>if not pointer\<close>.\<close>

fun truthy :: "json \<Rightarrow> bool" where
  "truthy JNull = False"
| "truthy (JBool b) = b"
| "truthy (JNum n) = (n \<noteq> 0)"
| "truthy (JStr s) = (s \<noteq> [])"
| "truthy (JList xs) = (xs \<noteq> [])"
| "truthy (JDict kvs) = (kvs \<noteq> [])"

text \<open>
  \<^verbatim>\<open>class A2AMessage(BaseModel)\<close>: the five fields every service declares. A value of
  this record is an envelope that passed validation; \<^verbatim>\<open>msg.dict()\<close> is the same data.
\<close>

record a2a_message =
  sender :: string
  receiver :: string
  type :: string
  payload :: "(string \<times> json) list"
  conv_id :: string

section \<open>The broker (broker\_service.py)\<close>

text \<open>
  \<^verbatim>\<open>QUEUES: Dict[str, deque] = defaultdict(deque)\<close>. The dictionary is a partial map from
  agent names to queues. Reading \<^verbatim>\<open>QUEUES[k]\<close> for a key that is not there stores an
  empty deque under \<^verbatim>\<open>k\<close> and returns it, which \<open>getitem\<close> writes out.
\<close>

type_synonym queues = "string \<rightharpoonup> a2a_message list"

definition getitem :: "queues \<Rightarrow> string \<Rightarrow> a2a_message list \<times> queues" where
  "getitem Q k = (case Q k of None \<Rightarrow> ([], Q(k \<mapsto> [])) | Some q \<Rightarrow> (q, Q))"

text \<open>
  What a recipient's mailbox holds: the deque stored under its name, and nothing when
  the name has no entry. This is all that send, poll and size can observe of \<open>QUEUES\<close>.
\<close>

definition mailbox :: "queues \<Rightarrow> string \<Rightarrow> a2a_message list" where
  "mailbox Q agent = (case Q agent of None \<Rightarrow> [] | Some q \<Rightarrow> q)"

text \<open>
  \<^verbatim>\<open>{"status": "enqueued", "receiver": msg.receiver, "size": len(QUEUES[msg.receiver])}\<close>
\<close>

datatype send_response = Enqueued (resp_receiver: string) (resp_size: nat)

text \<open>\<^verbatim>\<open>{"status": "empty"}\<close> or \<^verbatim>\<open>{"status": "ok", "message": msg}\<close>\<close>

datatype poll_response = Empty | Ok a2a_message

text \<open>\<^verbatim>\<open>{"agent": agent, "size": len(QUEUES[agent])}\<close>\<close>

datatype size_response = Size (size_agent: string) (size_value: nat)

definition broker_send :: "a2a_message \<Rightarrow> queues \<Rightarrow> send_response \<times> queues" where
  "broker_send msg Q =
     (let (q, Q1) = getitem Q (receiver msg);
          Q2 = Q1(receiver msg \<mapsto> q @ [msg]);
          (q', Q3) = getitem Q2 (receiver msg)
      in (Enqueued (receiver msg) (length q'), Q3))"

definition broker_poll :: "string \<Rightarrow> queues \<Rightarrow> poll_response \<times> queues" where
  "broker_poll agent Q =
     (let (q, Q1) = getitem Q agent
      in case q of
           [] \<Rightarrow> (Empty, Q1)
         | msg # rest \<Rightarrow> (Ok msg, Q1(agent \<mapsto> rest)))"

definition broker_size :: "string \<Rightarrow> queues \<Rightarrow> size_response \<times> queues" where
  "broker_size agent Q = (let (q, Q1) = getitem Q agent in (Size agent (length q), Q1))"

text \<open>A caller that sends a list of envelopes one after the other.\<close>

fun send_all :: "a2a_message list \<Rightarrow> queues \<Rightarrow> queues" where
  "send_all [] Q = Q"
| "send_all (m # ms) Q = send_all ms (snd (broker_send m Q))"

text \<open>A caller that polls the same agent \<open>n\<close> times in a row and keeps the responses.\<close>

fun poll_times :: "nat \<Rightarrow> string \<Rightarrow> queues \<Rightarrow> poll_response list \<times> queues" where
  "poll_times 0 agent Q = ([], Q)"
| "poll_times (Suc n) agent Q =
     (let (r, Q1) = broker_poll agent Q;
          (rs, Q2) = poll_times n agent Q1
      in (r # rs, Q2))"

section \<open>The Analyst step (analyst\_service.py)\<close>

text \<open>
  The module as shipped does not parse: line 91, inside \<^verbatim>\<open>call_groq\<close>, carries stray
  text (a \<^verbatim>\<open>pip install\<close> command) after the \<^verbatim>\<open>messages\<close> argument. The text of
  \<^verbatim>\<open>pull_process_and_reply\<close> itself is well formed and is what the model follows;
  \<^verbatim>\<open>call_groq\<close> is a parameter of the model.
\<close>

text \<open>
  What the step can raise: a failed HTTP request (\<^verbatim>\<open>requests\<close> raising, or
  \<^verbatim>\<open>raise_for_status\<close>), \<^verbatim>\<open>pointer.split\<close> on a pointer that is not a string, and
  a failure of the Groq client.
\<close>

datatype error = RequestException | AttributeError | GroqError

text \<open>
  The Analyst reaches the broker over HTTP; the model calls the broker's functions on
  the broker's \<open>QUEUES\<close> and keeps the Analyst's own \<^verbatim>\<open>INBOX\<close> list beside it.
\<close>

record world =
  QUEUES :: queues
  INBOX :: "a2a_message list"

text \<open>
  The collaborators of one invocation: whether the poll request and the send request
  get through, what the registry returns for a resource id (the \<^verbatim>\<open>data\<close> field of the
  fetched resource, or the error of the request), and what \<^verbatim>\<open>call_groq\<close> returns for
  the prompts built around the document text (the model's answer, or the canned message
  when no key is set, or an error of the client).
\<close>

record analyst_env =
  poll_ok :: bool
  fetch :: "string \<Rightarrow> error + string"
  call_groq :: "string \<Rightarrow> error + string"
  send_ok :: bool

text \<open>\<^verbatim>\<open>d.get(k, default)\<close>; \<^verbatim>\<open>d.get(k)\<close> is \<open>dict_get d k JNull\<close>.\<close>

definition dict_get :: "(string \<times> json) list \<Rightarrow> string \<Rightarrow> json \<Rightarrow> json" where
  "dict_get d k dflt = (case map_of d k of None \<Rightarrow> dflt | Some v \<Rightarrow> v)"

text \<open>\<^verbatim>\<open>pointer.split("/")[-1]\<close>: what follows the last slash.\<close>

definition last_segment :: "string \<Rightarrow> string" where
  "last_segment pointer = rev (takeWhile (\<lambda>c. c \<noteq> CHR ''/'') (rev pointer))"

definition mcp_get :: "analyst_env \<Rightarrow> json \<Rightarrow> error + string" where
  "mcp_get env pointer =
     (case pointer of
        JStr p \<Rightarrow> fetch env (last_segment p)
      | _ \<Rightarrow> Inl AttributeError)"

text \<open>
  \<^verbatim>\<open>{"status": "no-messages"}\<close>, \<^verbatim>\<open>{"status": "ignored", "reason": "no pointer"}\<close> and
  \<^verbatim>\<open>{"reply_enqueued": reply.dict()}\<close>
\<close>

datatype analyst_response = NoMessages | Ignored | ReplyEnqueued a2a_message

definition pull_process_and_reply ::
  "analyst_env \<Rightarrow> world \<Rightarrow> (error + analyst_response) \<times> world" where
  "pull_process_and_reply env w =
     (if \<not> poll_ok env then (Inl RequestException, w)
      else case broker_poll ''Analyst'' (QUEUES w) of
        (Empty, Q1) \<Rightarrow> (Inr NoMessages, w\<lparr>QUEUES := Q1\<rparr>)
      | (Ok msg, Q1) \<Rightarrow>
          (let w1 = w\<lparr>QUEUES := Q1, INBOX := INBOX w @ [msg]\<rparr>;
               pointer = dict_get (payload msg) ''pointer'' JNull
           in if \<not> truthy pointer then (Inr Ignored, w1)
              else case mcp_get env pointer of
                Inl e \<Rightarrow> (Inl e, w1)
              | Inr doc_text \<Rightarrow>
                  (case call_groq env doc_text of
                     Inl e \<Rightarrow> (Inl e, w1)
                   | Inr analysis \<Rightarrow>
                       (let reply = \<lparr>sender = ''Analyst'', receiver = ''Researcher'',
                                     type = ''confirm'',
                                     payload = [(''analysis'', JStr analysis),
                                                (''source_pointer'', pointer)],
                                     conv_id = conv_id msg\<rparr>
                        in if \<not> send_ok env then (Inl RequestException, w1)
                           else (Inr (ReplyEnqueued reply),
                                 w1\<lparr>QUEUES := snd (broker_send reply (QUEUES w1))\<rparr>)))))"

text \<open>The state of the Analyst once an envelope has been polled and recorded.\<close>

definition polled_world :: "world \<Rightarrow> a2a_message \<Rightarrow> world" where
  "polled_world w msg =
     w\<lparr>QUEUES := snd (broker_poll ''Analyst'' (QUEUES w)), INBOX := INBOX w @ [msg]\<rparr>"

text \<open>The debug endpoints \<^verbatim>\<open>GET /inbox\<close> and \<^verbatim>\<open>DELETE /inbox/clear\<close>.\<close>

definition inbox :: "world \<Rightarrow> a2a_message list" where
  "inbox w = INBOX w"

definition inbox_clear :: "world \<Rightarrow> world" where
  "inbox_clear w = w\<lparr>INBOX := []\<rparr>"

section \<open>The driver (frontend\_service.py)\<close>

text \<open>
  The driver reads the clock (\<^verbatim>\<open>time.time()\<close>) at the head of every round. Time is
  counted in milliseconds: the deadline is 25000 after the start and \<^verbatim>\<open>time.sleep(1.0)\<close>
  takes 1000 and possibly more. What one round meets outside the driver is a
  \<open>round_event\<close>: how long the call to the Analyst takes (its result is dropped and its
  exceptions are ignored), how long the poll of the broker takes and what it returns or
  raises, and by how much the sleep overruns.
\<close>

record round_event =
  trigger_ms :: nat
  poll_ms :: nat
  polled :: "error + poll_response"
  oversleep_ms :: nat

record loop_state =
  now :: nat
  attempts :: nat
  stray_msgs :: "a2a_message list"
  reply_msg :: "a2a_message option"

text \<open>
  The \<^verbatim>\<open>while time.time() < deadline\<close> loop of \<^verbatim>\<open>run_pipeline\<close>; \<open>rs n\<close> is the
  event of round \<open>n\<close>, counted as \<^verbatim>\<open>attempts\<close> counts. A poll that raises gives
  \<^verbatim>\<open>{"status": "error"}\<close>, which like "empty" is not "ok". The message of an "ok"
  answer is an envelope, a non-empty dictionary, so \<^verbatim>\<open>m and ...\<close> tests the
  conversation id alone. \<^verbatim>\<open>break\<close> leaves the loop before the sleep.
\<close>

function wait_loop ::
  "string \<Rightarrow> nat \<Rightarrow> (nat \<Rightarrow> round_event) \<Rightarrow> loop_state \<Rightarrow> loop_state" where
  "wait_loop conv deadline rs s =
     (if now s < deadline then
        (let n = attempts s + 1;
             ev = rs n;
             t = now s + trigger_ms ev + poll_ms ev
         in case polled ev of
              Inr (Ok m) \<Rightarrow>
                if conv_id m = conv
                then s\<lparr>now := t, attempts := n, reply_msg := Some m\<rparr>
                else wait_loop conv deadline rs
                       (s\<lparr>now := t + 1000 + oversleep_ms ev, attempts := n,
                          stray_msgs := stray_msgs s @ [m]\<rparr>)
            | _ \<Rightarrow>
                wait_loop conv deadline rs
                  (s\<lparr>now := t + 1000 + oversleep_ms ev, attempts := n\<rparr>))
      else s)"
  by pat_completeness auto
termination
  by (relation "measure (\<lambda>(conv, deadline, rs, s). deadline - now s)") auto

declare wait_loop.simps [simp del]

text \<open>
  What \<^verbatim>\<open>run_pipeline\<close> meets outside: the registry's answer to \<^verbatim>\<open>mcp_put\<close>, the
  fresh \<^verbatim>\<open>uuid.uuid4()\<close>, the broker's answer to the send, the clock at
  \<^verbatim>\<open>start = time.time()\<close>, and the rounds of the wait.
\<close>

record pipeline_env =
  mcp_put :: "nat list \<Rightarrow> error + string"
  uuid4 :: string
  send_request :: "a2a_message \<Rightarrow> error + send_response"
  start :: nat
  rounds :: "nat \<Rightarrow> round_event"

text \<open>
  \<^verbatim>\<open>query.strip()\<close> looks at the characters of the query, so the query and the data
  handed to the registry are lists of Unicode code points. \<open>is_space\<close> is Python's
  \<^verbatim>\<open>str.isspace\<close> on one character: the code points 9 to 13, 28 to 32, U+0085, U+00A0,
  U+1680, U+2000 to U+200A, U+2028, U+2029, U+202F, U+205F and U+3000.
\<close>

definition is_space :: "nat \<Rightarrow> bool" where
  "is_space c =
     ((0x09 \<le> c \<and> c \<le> 0x0D) \<or> (0x1C \<le> c \<and> c \<le> 0x20) \<or> c = 0x85 \<or> c = 0xA0
      \<or> c = 0x1680 \<or> (0x2000 \<le> c \<and> c \<le> 0x200A) \<or> c = 0x2028 \<or> c = 0x2029
      \<or> c = 0x202F \<or> c = 0x205F \<or> c = 0x3000)"

definition strip :: "nat list \<Rightarrow> nat list" where
  "strip q = rev (dropWhile is_space (rev (dropWhile is_space q)))"

text \<open>
  The page that \<^verbatim>\<open>run_pipeline\<close> renders, as the data it shows. The status block has
  the attempts, the pointer and the broker's answer to the send; the stray block shows
  \<^verbatim>\<open>stray_msgs[0]\<close> when there is a stray ("showing first only"); the reply card shows
  the conversation id, the source pointer, the reply and its analysis text (how the text
  is laid out when it parses as JSON is left to the rendering).
\<close>

record status_block =
  sb_attempts :: nat
  sb_pointer :: string
  sb_enqueue :: send_response

record reply_card =
  rc_conversation :: string
  rc_source_pointer :: json
  rc_message :: a2a_message
  rc_analysis :: json

datatype page =
    MCPError error
  | BrokerEnqueueError error
  | NoReply status_block "a2a_message option"
  | ReplyReceived status_block "a2a_message option" reply_card

definition initial :: "nat \<Rightarrow> loop_state" where
  "initial t = \<lparr>now = t, attempts = 0, stray_msgs = [], reply_msg = None\<rparr>"

definition stray_block :: "a2a_message list \<Rightarrow> a2a_message option" where
  "stray_block strays = (case strays of [] \<Rightarrow> None | m # _ \<Rightarrow> Some m)"

definition request_envelope :: "string \<Rightarrow> string \<Rightarrow> a2a_message" where
  "request_envelope pointer conv =
     \<lparr>sender = ''Researcher'', receiver = ''Analyst'', type = ''inform'',
      payload = [(''pointer'', JStr pointer),
                 (''task'', JStr ''Verify facts, extract KPIs, ~120-word summary.'')],
      conv_id = conv\<rparr>"

definition run_pipeline :: "pipeline_env \<Rightarrow> nat list \<Rightarrow> page" where
  "run_pipeline env query =
     (case mcp_put env (strip query) of
        Inl e \<Rightarrow> MCPError e
      | Inr pointer \<Rightarrow>
          (let conv = ''conv-'' @ uuid4 env;
               msg = request_envelope pointer conv
           in case send_request env msg of
                Inl e \<Rightarrow> BrokerEnqueueError e
              | Inr send_resp \<Rightarrow>
                  (let s = wait_loop conv (start env + 25000) (rounds env) (initial (start env));
                       status = \<lparr>sb_attempts = attempts s, sb_pointer = pointer,
                                 sb_enqueue = send_resp\<rparr>
                   in case reply_msg s of
                        None \<Rightarrow> NoReply status (stray_block (stray_msgs s))
                      | Some r \<Rightarrow>
                          ReplyReceived status (stray_block (stray_msgs s))
                            \<lparr>rc_conversation = conv,
                              rc_source_pointer = dict_get (payload r) ''source_pointer'' (JStr []),
                              rc_message = r,
                              rc_analysis = dict_get (payload r) ''analysis'' (JStr [])\<rparr>)))"

text \<open>
  Notions the claims about the wait are stated with: whether a round's poll brings the
  reply of conversation \<open>conv\<close>, the stray it brings otherwise, and the time a round
  takes beyond the fixed second of sleep.
\<close>

definition matches :: "string \<Rightarrow> round_event \<Rightarrow> bool" where
  "matches conv ev = (case polled ev of Inr (Ok m) \<Rightarrow> conv_id m = conv | _ \<Rightarrow> False)"

definition stray_of :: "string \<Rightarrow> round_event \<Rightarrow> a2a_message list" where
  "stray_of conv ev =
     (case polled ev of Inr (Ok m) \<Rightarrow> if conv_id m = conv then [] else [m] | _ \<Rightarrow> [])"

definition calls_ms :: "round_event \<Rightarrow> nat" where
  "calls_ms ev = trigger_ms ev + poll_ms ev"

text \<open>The loop state after a round that did not bring the reply: the sleep is over.\<close>

definition after_round :: "string \<Rightarrow> round_event \<Rightarrow> loop_state \<Rightarrow> loop_state" where
  "after_round conv ev s =
     s\<lparr>now := now s + trigger_ms ev + poll_ms ev + 1000 + oversleep_ms ev,
       attempts := attempts s + 1,
       stray_msgs := stray_msgs s @ stray_of conv ev\<rparr>"

text \<open>A script of rounds: the listed events in order, then \<open>idle\<close> for ever.\<close>

definition script :: "round_event list \<Rightarrow> round_event \<Rightarrow> nat \<Rightarrow> round_event" where
  "script evs idle n = (if 1 \<le> n \<and> n \<le> length evs then evs ! (n - 1) else idle)"


section \<open>Example envelopes and broker states\<close>

definition env_A :: a2a_message where
  "env_A = \<lparr>sender = ''Researcher'', receiver = ''Analyst'', type = ''inform'',
            payload = [(''pointer'', JStr ''ctx://note/p1'')], conv_id = ''c1''\<rparr>"

definition env_B :: a2a_message where
  "env_B = \<lparr>sender = ''Researcher'', receiver = ''Analyst'', type = ''inform'',
            payload = [(''pointer'', JStr ''ctx://note/p2'')], conv_id = ''c2''\<rparr>"

definition env_Z :: a2a_message where
  "env_Z = \<lparr>sender = ''Frontend'', receiver = ''Analyst'', type = ''request'',
            payload = [(''task'', JStr ''ping'')], conv_id = ''c0''\<rparr>"

definition no_queues :: queues where
  "no_queues = Map.empty"

definition one_pending :: queues where
  "one_pending = [''Analyst'' \<mapsto> [env_Z]]"

definition two_pending :: queues where
  "two_pending = [''Analyst'' \<mapsto> [env_A, env_B]]"

definition env_R :: a2a_message where
  "env_R = \<lparr>sender = ''Analyst'', receiver = ''Researcher'', type = ''confirm'',
            payload = [(''analysis'', JStr ''done''), (''source_pointer'', JStr ''ctx://note/p0'')],
            conv_id = ''c9''\<rparr>"

definition mixed_pending :: queues where
  "mixed_pending = [''Analyst'' \<mapsto> [env_Z], ''Researcher'' \<mapsto> [env_R]]"

definition env_F :: a2a_message where
  "env_F = \<lparr>sender = ''Frontend'', receiver = ''Analyst'', type = ''inform'',
            payload = [(''pointer'', JStr ''ctx://note/p7'')], conv_id = ''c7''\<rparr>"

definition reply_F :: a2a_message where
  "reply_F = \<lparr>sender = ''Analyst'', receiver = ''Researcher'', type = ''confirm'',
              payload = [(''analysis'', JStr ''summary of note p7''),
                         (''source_pointer'', JStr ''ctx://note/p7'')],
              conv_id = ''c7''\<rparr>"

definition all_up :: analyst_env where
  "all_up = \<lparr>poll_ok = True, fetch = (\<lambda>rid. Inr (''note '' @ rid)),
             call_groq = (\<lambda>doc. Inr (''summary of '' @ doc)), send_ok = True\<rparr>"

definition world_F :: world where
  "world_F = \<lparr>QUEUES = [''Analyst'' \<mapsto> [env_F]], INBOX = []\<rparr>"

definition world_Z :: world where
  "world_Z = \<lparr>QUEUES = mixed_pending, INBOX = [env_A]\<rparr>"

definition env_R2 :: a2a_message where
  "env_R2 = \<lparr>sender = ''Analyst'', receiver = ''Researcher'', type = ''confirm'',
             payload = [(''analysis'', JStr ''late''), (''source_pointer'', JStr ''ctx://note/p3'')],
             conv_id = ''c8''\<rparr>"

definition reply_u1 :: a2a_message where
  "reply_u1 = \<lparr>sender = ''Analyst'', receiver = ''Researcher'', type = ''confirm'',
               payload = [(''analysis'', JStr ''summary of note p5''),
                          (''source_pointer'', JStr ''ctx://note/p5'')],
               conv_id = ''conv-u1''\<rparr>"

definition stray_round :: round_event where
  "stray_round = \<lparr>trigger_ms = 10000, poll_ms = 0, polled = Inr (Ok env_R), oversleep_ms = 0\<rparr>"

definition stray_round2 :: round_event where
  "stray_round2 = \<lparr>trigger_ms = 10000, poll_ms = 0, polled = Inr (Ok env_R2), oversleep_ms = 0\<rparr>"

definition slow_idle :: round_event where
  "slow_idle = \<lparr>trigger_ms = 10000, poll_ms = 0, polled = Inr Empty, oversleep_ms = 0\<rparr>"

definition reply_round :: round_event where
  "reply_round = \<lparr>trigger_ms = 2000, poll_ms = 10, polled = Inr (Ok reply_u1), oversleep_ms = 0\<rparr>"

definition down_round :: round_event where
  "down_round = \<lparr>trigger_ms = 0, poll_ms = 0, polled = Inl RequestException, oversleep_ms = 0\<rparr>"

text \<open>
  The query "hi" between a no-break space (U+00A0) and a next-line character (U+0085),
  which \<^verbatim>\<open>strip\<close> turns into "hi".
\<close>

definition query_hi :: "nat list" where
  "query_hi = [0xA0, 0x68, 0x69, 0x85]"

definition slow_env :: pipeline_env where
  "slow_env = \<lparr>mcp_put = (\<lambda>data. if data = [0x68, 0x69] then Inr ''ctx://note/p5''
                                    else Inl RequestException),
               uuid4 = ''u1'',
               send_request = (\<lambda>msg. Inr (Enqueued (receiver msg) 1)), start = 0,
               rounds = script [stray_round, stray_round2] slow_idle\<rparr>"

definition down_env :: pipeline_env where
  "down_env = \<lparr>mcp_put = (\<lambda>data. if data = [0x68, 0x69] then Inr ''ctx://note/p5''
                                    else Inl RequestException),
               uuid4 = ''u1'',
               send_request = (\<lambda>msg. Inr (Enqueued (receiver msg) 1)), start = 0,
               rounds = script [] down_round\<rparr>"

definition world_U :: world where
  "world_U = \<lparr>QUEUES = [''Analyst'' \<mapsto> [request_envelope ''ctx://note/p5'' ''conv-u1'']],
              INBOX = []\<rparr>"

section \<open>Mailbox contents after each broker operation\<close>

lemma mailbox_getitem [simp]: "mailbox (snd (getitem Q k)) a = mailbox Q a"
  by (simp add: getitem_def mailbox_def split: option.splits)

lemma fst_getitem [simp]: "fst (getitem Q k) = mailbox Q k"
  by (simp add: getitem_def mailbox_def split: option.splits)

lemma mailbox_upd [simp]: "mailbox (Q(k \<mapsto> q)) a = (if a = k then q else mailbox Q a)"
  by (simp add: mailbox_def)

lemma send_response: "fst (broker_send m Q) = Enqueued (receiver m) (Suc (length (mailbox Q (receiver m))))"
  by (simp add: broker_send_def getitem_def mailbox_def split: option.splits)

lemma mailbox_send:
  "mailbox (snd (broker_send m Q)) a = (if a = receiver m then mailbox Q a @ [m] else mailbox Q a)"
  by (simp add: broker_send_def getitem_def mailbox_def split: option.splits)

lemma poll_response:
  "fst (broker_poll a Q) = (case mailbox Q a of [] \<Rightarrow> Empty | m # rest \<Rightarrow> Ok m)"
  by (simp add: broker_poll_def getitem_def mailbox_def split: option.splits list.splits)

lemma mailbox_poll:
  "mailbox (snd (broker_poll a Q)) b = (if b = a then tl (mailbox Q a) else mailbox Q b)"
  by (simp add: broker_poll_def getitem_def mailbox_def split: option.splits list.splits)

lemma size_response: "fst (broker_size a Q) = Size a (length (mailbox Q a))"
  by (simp add: broker_size_def getitem_def mailbox_def split: option.splits)

lemma mailbox_size: "mailbox (snd (broker_size a Q)) b = mailbox Q b"
  by (simp add: broker_size_def getitem_def mailbox_def split: option.splits)

lemma mailbox_send_all:
  "mailbox (send_all ms Q) a = mailbox Q a @ filter (\<lambda>m. receiver m = a) ms"
  by (induction ms arbitrary: Q) (simp_all add: mailbox_send)

lemma fst_poll_times:
  "fst (poll_times n a Q) =
     map Ok (take n (mailbox Q a)) @ replicate (n - length (mailbox Q a)) Empty"
proof (induction n arbitrary: Q)
  case 0
  show ?case by simp
next
  case (Suc n)
  have step: "fst (poll_times (Suc n) a Q) =
      fst (broker_poll a Q) # fst (poll_times n a (snd (broker_poll a Q)))"
    by (simp add: split_def Let_def)
  show ?case
  proof (cases "mailbox Q a")
    case Nil
    then show ?thesis
      by (simp only: step Suc.IH) (simp add: poll_response mailbox_poll)
  next
    case (Cons m rest)
    then show ?thesis
      by (simp only: step Suc.IH) (simp add: poll_response mailbox_poll)
  qed
qed

lemma mailbox_poll_times:
  "mailbox (snd (poll_times n a Q)) b = (if b = a then drop n (mailbox Q a) else mailbox Q b)"
proof (induction n arbitrary: Q)
  case 0
  show ?case by simp
next
  case (Suc n)
  have step: "snd (poll_times (Suc n) a Q) = snd (poll_times n a (snd (broker_poll a Q)))"
    by (simp add: split_def Let_def)
  show ?case
    by (simp only: step Suc.IH) (simp add: mailbox_poll drop_Suc)
qed

section \<open>Claims about the broker\<close>

text \<open>
  C7. For every envelope that passed validation, \<open>broker_send\<close> appends it to the
  mailbox of its receiver and answers "enqueued" with the receiver and a size that is
  the length of the receiver's queue after the append, one more than before the send.
  Every other mailbox is left as it was.
\<close>

theorem broker_send_enqueues:
  "fst (broker_send msg Q) = Enqueued (receiver msg) (length (mailbox (snd (broker_send msg Q)) (receiver msg)))
   \<and> resp_size (fst (broker_send msg Q)) = length (mailbox Q (receiver msg)) + 1
   \<and> mailbox (snd (broker_send msg Q)) (receiver msg) = mailbox Q (receiver msg) @ [msg]
   \<and> (\<forall>a. a \<noteq> receiver msg \<longrightarrow> mailbox (snd (broker_send msg Q)) a = mailbox Q a)"
  by (simp add: send_response mailbox_send)

theorem broker_send_enqueues_witness:
  "fst (broker_send env_A one_pending) = Enqueued ''Analyst'' 2
   \<and> mailbox (snd (broker_send env_A one_pending)) ''Analyst'' = [env_Z, env_A]
   \<and> ''Researcher'' \<noteq> receiver env_A
   \<and> mailbox (snd (broker_send env_A one_pending)) ''Researcher'' = []"
  using broker_send_enqueues [of env_A one_pending]
  by (simp add: env_A_def one_pending_def mailbox_def)

text \<open>
  Two dictionaries whose mailboxes hold the same envelopes answer every broker call
  alike and stay alike: an entry with an empty deque and a missing entry cannot be told
  apart through send, poll or size.
\<close>

lemma same_mailboxes_same_answers:
  assumes "mailbox Q1 = mailbox Q2"
  shows "fst (broker_poll a Q1) = fst (broker_poll a Q2)"
    and "mailbox (snd (broker_poll a Q1)) = mailbox (snd (broker_poll a Q2))"
    and "fst (broker_size a Q1) = fst (broker_size a Q2)"
    and "mailbox (snd (broker_size a Q1)) = mailbox (snd (broker_size a Q2))"
    and "fst (broker_send m Q1) = fst (broker_send m Q2)"
    and "mailbox (snd (broker_send m Q1)) = mailbox (snd (broker_send m Q2))"
  using assms
  by (simp_all add: poll_response mailbox_poll size_response mailbox_size
      send_response mailbox_send fun_eq_iff)

lemma poll_times_empty_queues:
  "mailbox Q a = [] \<Longrightarrow> snd (poll_times n a Q) = (if n = 0 then Q else Q(a \<mapsto> []))"
proof (induction n arbitrary: Q)
  case 0
  show ?case by simp
next
  case (Suc n)
  have one: "snd (broker_poll a Q) = Q(a \<mapsto> [])"
    using Suc.prems
    by (auto simp add: broker_poll_def getitem_def mailbox_def split: option.splits)
  have step: "snd (poll_times (Suc n) a Q) = snd (poll_times n a (snd (broker_poll a Q)))"
    by (simp add: split_def Let_def)
  have "mailbox (Q(a \<mapsto> [])) a = []" by simp
  have ih: "snd (poll_times n a (Q(a \<mapsto> []))) = Q(a \<mapsto> [])"
  proof (cases "n = 0")
    case True
    then show ?thesis by simp
  next
    case False
    with Suc.IH [OF \<open>mailbox (Q(a \<mapsto> [])) a = []\<close>] show ?thesis
      by (simp only: if_False fun_upd_upd)
  qed
  have "snd (poll_times (Suc n) a Q) = snd (poll_times n a (Q(a \<mapsto> [])))"
    by (simp only: step one)
  with ih show ?case by simp
qed

text \<open>
  C4. Polling an agent that has no pending message, any number of times, answers "empty"
  every time and changes the content of no mailbox; this includes an agent name that
  was never used before, which poll and size treat as an empty mailbox and not as an
  error. The dictionary itself changes at most by an empty deque stored under the polled
  name (what \<^verbatim>\<open>defaultdict\<close> does on a first read), and not at all when that entry
  is already there.
\<close>

theorem empty_poll_idempotent:
  assumes "mailbox Q a = []"
  shows "fst (poll_times n a Q) = replicate n Empty
         \<and> (\<forall>b. mailbox (snd (poll_times n a Q)) b = mailbox Q b)
         \<and> snd (poll_times n a Q) = (if n = 0 then Q else Q(a \<mapsto> []))
         \<and> (Q a = Some [] \<longrightarrow> snd (poll_times n a Q) = Q)
         \<and> fst (broker_size a Q) = Size a 0
         \<and> fst (broker_size a (snd (poll_times n a Q))) = Size a 0"
proof -
  have r: "fst (poll_times n a Q) = replicate n Empty"
    using assms by (simp add: fst_poll_times)
  have m: "\<forall>b. mailbox (snd (poll_times n a Q)) b = mailbox Q b"
    using assms by (simp add: mailbox_poll_times)
  have d: "snd (poll_times n a Q) = (if n = 0 then Q else Q(a \<mapsto> []))"
    using assms by (rule poll_times_empty_queues)
  have e: "Q a = Some [] \<longrightarrow> snd (poll_times n a Q) = Q"
    by (auto simp add: d fun_upd_idem)
  have s1: "fst (broker_size a Q) = Size a 0"
    using assms by (simp add: size_response)
  have s2: "fst (broker_size a (snd (poll_times n a Q))) = Size a 0"
    using assms m by (simp add: size_response)
  from r m d e s1 s2 show ?thesis by blast
qed

theorem empty_poll_idempotent_witness:
  "mailbox no_queues ''Nobody'' = []
   \<and> no_queues ''Nobody'' = None
   \<and> fst (poll_times 3 ''Nobody'' no_queues) = [Empty, Empty, Empty]
   \<and> mailbox (snd (poll_times 3 ''Nobody'' no_queues)) ''Analyst'' = mailbox no_queues ''Analyst''
   \<and> fst (broker_size ''Nobody'' no_queues) = Size ''Nobody'' 0
   \<and> mailbox (no_queues(''Nobody'' \<mapsto> [])) ''Nobody'' = []
   \<and> (no_queues(''Nobody'' \<mapsto> [])) ''Nobody'' = Some []
   \<and> snd (poll_times 3 ''Nobody'' (no_queues(''Nobody'' \<mapsto> []))) = no_queues(''Nobody'' \<mapsto> [])"
proof -
  have h: "mailbox no_queues ''Nobody'' = []"
    by (simp add: no_queues_def mailbox_def)
  have h2: "mailbox (no_queues(''Nobody'' \<mapsto> [])) ''Nobody'' = []"
    by simp
  have k: "(no_queues(''Nobody'' \<mapsto> [])) ''Nobody'' = Some []"
    by simp
  have n: "no_queues ''Nobody'' = None"
    by (simp add: no_queues_def)
  from empty_poll_idempotent [OF h, of 3] empty_poll_idempotent [OF h2, of 3] h h2 k n
  show ?thesis
    by (simp add: numeral_3_eq_3)
qed

text \<open>
  C9. For distinct recipients \<open>X\<close> and \<open>Y\<close>, sending any number of envelopes addressed
  to \<open>X\<close> leaves the mailbox of \<open>Y\<close> as it was: the same envelopes, hence the same
  size reported by \<open>broker_size\<close> and the same answers, in the same order, to any
  number of polls.
\<close>

theorem send_isolation:
  assumes "\<forall>m \<in> set ms. receiver m = X" and "X \<noteq> Y"
  shows "mailbox (send_all ms Q) Y = mailbox Q Y
         \<and> fst (broker_size Y (send_all ms Q)) = fst (broker_size Y Q)
         \<and> fst (poll_times n Y (send_all ms Q)) = fst (poll_times n Y Q)"
proof -
  have "filter (\<lambda>m. receiver m = Y) ms = []"
    using assms by (auto simp add: filter_empty_conv)
  then have "mailbox (send_all ms Q) Y = mailbox Q Y"
    by (simp add: mailbox_send_all)
  then show ?thesis
    by (simp add: size_response fst_poll_times)
qed

theorem send_isolation_witness:
  "receiver env_A = ''Analyst'' \<and> receiver env_B = ''Analyst'' \<and> ''Analyst'' \<noteq> ''Researcher''
   \<and> mailbox (send_all [env_A, env_B] mixed_pending) ''Researcher'' = [env_R]
   \<and> fst (broker_size ''Researcher'' (send_all [env_A, env_B] mixed_pending)) = Size ''Researcher'' 1
   \<and> fst (poll_times 2 ''Researcher'' (send_all [env_A, env_B] mixed_pending)) = [Ok env_R, Empty]"
proof -
  have h: "\<forall>m \<in> set [env_A, env_B]. receiver m = ''Analyst''"
    by (simp add: env_A_def env_B_def)
  have d: "''Analyst'' \<noteq> ''Researcher''" by simp
  have m: "mailbox mixed_pending ''Researcher'' = [env_R]"
    by (simp add: mixed_pending_def mailbox_def)
  from send_isolation [OF h d, of mixed_pending 2] h m show ?thesis
    by (simp add: size_response fst_poll_times)
qed




text \<open>
  C3, as stated, at a mailbox that holds two envelopes: the first poll returns the head
  \<open>env_A\<close>, nothing is enqueued, and the poll that follows at once returns \<open>env_B\<close>,
  not "empty".
\<close>

theorem destructive_poll_counterexample:
  "mailbox two_pending ''Analyst'' \<noteq> []
   \<and> fst (broker_poll ''Analyst'' two_pending) = Ok env_A
   \<and> fst (broker_poll ''Analyst'' (snd (broker_poll ''Analyst'' two_pending))) = Ok env_B
   \<and> fst (broker_poll ''Analyst'' (snd (broker_poll ''Analyst'' two_pending))) \<noteq> Empty"
  by (simp add: broker_poll_def getitem_def two_pending_def mailbox_def)

text \<open>
  C3 (amended). For every non-empty mailbox, \<open>broker_poll\<close> for that recipient removes
  and returns exactly the head envelope and leaves the rest in place, the size reported
  by \<open>broker_size\<close> goes down by exactly one, and no other mailbox changes. A poll
  that follows at once, with nothing enqueued in between, answers "empty" when the polled
  envelope was the only one in the mailbox, and returns the next envelope otherwise.
\<close>

theorem destructive_poll:
  assumes "mailbox Q a = m # rest"
  shows "fst (broker_poll a Q) = Ok m
         \<and> mailbox (snd (broker_poll a Q)) a = rest
         \<and> (\<forall>b. b \<noteq> a \<longrightarrow> mailbox (snd (broker_poll a Q)) b = mailbox Q b)
         \<and> size_value (fst (broker_size a Q)) = size_value (fst (broker_size a (snd (broker_poll a Q)))) + 1
         \<and> (rest = [] \<longrightarrow> fst (broker_poll a (snd (broker_poll a Q))) = Empty)
         \<and> (rest \<noteq> [] \<longrightarrow> fst (broker_poll a (snd (broker_poll a Q))) = Ok (hd rest))"
  using assms
  by (auto simp add: poll_response mailbox_poll size_response split: list.splits)

theorem destructive_poll_witness:
  "mailbox one_pending ''Analyst'' = [env_Z]
   \<and> fst (broker_poll ''Analyst'' one_pending) = Ok env_Z
   \<and> fst (broker_size ''Analyst'' one_pending) = Size ''Analyst'' 1
   \<and> fst (broker_size ''Analyst'' (snd (broker_poll ''Analyst'' one_pending))) = Size ''Analyst'' 0
   \<and> ''Researcher'' \<noteq> ''Analyst''
   \<and> mailbox (snd (broker_poll ''Analyst'' one_pending)) ''Researcher'' = []
   \<and> fst (broker_poll ''Analyst'' (snd (broker_poll ''Analyst'' one_pending))) = Empty
   \<and> mailbox two_pending ''Analyst'' = [env_A, env_B] \<and> [env_B] \<noteq> []
   \<and> fst (broker_poll ''Analyst'' (snd (broker_poll ''Analyst'' two_pending))) = Ok env_B"
proof -
  have h1: "mailbox one_pending ''Analyst'' = [env_Z]"
    by (simp add: one_pending_def mailbox_def)
  have h2: "mailbox two_pending ''Analyst'' = [env_A, env_B]"
    by (simp add: two_pending_def mailbox_def)
  have h3: "mailbox one_pending ''Researcher'' = []"
    by (simp add: one_pending_def mailbox_def)
  from destructive_poll [OF h1] destructive_poll [OF h2] h1 h2 h3 show ?thesis
    by (simp add: size_response mailbox_poll)
qed

section \<open>The rounds of the driver's wait\<close>

lemma wait_loop_done: "\<not> now s < deadline \<Longrightarrow> wait_loop conv deadline rs s = s"
  by (simp add: wait_loop.simps)

lemma wait_loop_accept:
  assumes "now s < deadline" and "polled (rs (attempts s + 1)) = Inr (Ok m)" and "conv_id m = conv"
  shows "wait_loop conv deadline rs s =
           s\<lparr>now := now s + trigger_ms (rs (attempts s + 1)) + poll_ms (rs (attempts s + 1)),
              attempts := attempts s + 1, reply_msg := Some m\<rparr>"
  using assms by (subst wait_loop.simps) (simp add: Let_def)

lemma wait_loop_continue:
  assumes "now s < deadline" and "\<not> matches conv (rs (attempts s + 1))"
  shows "wait_loop conv deadline rs s =
           wait_loop conv deadline rs (after_round conv (rs (attempts s + 1)) s)"
proof (cases "polled (rs (attempts s + 1))")
  case (Inl e)
  with assms(1) show ?thesis
    by (subst wait_loop.simps) (simp add: Let_def after_round_def stray_of_def)
next
  case (Inr r)
  show ?thesis
  proof (cases r)
    case Empty
    with Inr assms(1) show ?thesis
      by (subst wait_loop.simps) (simp add: Let_def after_round_def stray_of_def)
  next
    case (Ok m)
    with Inr assms(2) have "conv_id m \<noteq> conv"
      by (simp add: matches_def)
    with Ok Inr assms(1) show ?thesis
      by (subst wait_loop.simps) (simp add: Let_def after_round_def stray_of_def)
  qed
qed

lemma matches_iff: "matches conv ev \<longleftrightarrow> (\<exists>m. polled ev = Inr (Ok m) \<and> conv_id m = conv)"
  by (auto simp add: matches_def split: sum.splits poll_response.splits)

text \<open>Induction over the rounds of the wait.\<close>

lemma wait_loop_rounds [case_names expired accepted continued]:
  assumes "\<And>s. \<not> now s < deadline \<Longrightarrow> P s"
    and "\<And>s m. now s < deadline \<Longrightarrow> polled (rs (attempts s + 1)) = Inr (Ok m) \<Longrightarrow>
           conv_id m = conv \<Longrightarrow> P s"
    and "\<And>s. now s < deadline \<Longrightarrow> \<not> matches conv (rs (attempts s + 1)) \<Longrightarrow>
           P (after_round conv (rs (attempts s + 1)) s) \<Longrightarrow> P s"
  shows "P s"
proof (induction "deadline - now s" arbitrary: s rule: less_induct)
  case less
  show ?case
  proof (cases "now s < deadline")
    case False
    then show ?thesis by (rule assms(1))
  next
    case running: True
    show ?thesis
    proof (cases "matches conv (rs (attempts s + 1))")
      case True
      then obtain m where "polled (rs (attempts s + 1)) = Inr (Ok m)" and "conv_id m = conv"
        by (auto simp add: matches_iff)
      with running show ?thesis by (rule assms(2))
    next
      case False
      have "deadline - now (after_round conv (rs (attempts s + 1)) s) < deadline - now s"
        using running by (simp add: after_round_def)
      then have "P (after_round conv (rs (attempts s + 1)) s)" by (rule less)
      with running False show ?thesis by (rule assms(3))
    qed
  qed
qed

lemma reply_has_conv:
  "reply_msg s = None \<Longrightarrow> reply_msg (wait_loop conv deadline rs s) = Some r \<Longrightarrow>
     conv_id r = conv"
proof (induction s rule: wait_loop_rounds [where deadline = deadline and rs = rs and conv = conv])
  case (expired s)
  then show ?case by (simp add: wait_loop_done)
next
  case (accepted s m)
  then show ?case by (simp add: wait_loop_accept)
next
  case (continued s)
  then show ?case by (simp add: wait_loop_continue after_round_def)
qed

lemma no_match_no_reply:
  "reply_msg s = None \<Longrightarrow> \<forall>n. \<not> matches conv (rs n) \<Longrightarrow>
     reply_msg (wait_loop conv deadline rs s) = None"
proof (induction s rule: wait_loop_rounds [where deadline = deadline and rs = rs and conv = conv])
  case (expired s)
  then show ?case by (simp add: wait_loop_done)
next
  case (accepted s m)
  then show ?case by (auto simp add: matches_iff)
next
  case (continued s)
  then show ?case by (simp add: wait_loop_continue after_round_def)
qed

lemma attempts_grow: "attempts s \<le> attempts (wait_loop conv deadline rs s)"
proof (induction s rule: wait_loop_rounds [where deadline = deadline and rs = rs and conv = conv])
  case (expired s)
  then show ?case by (simp add: wait_loop_done)
next
  case (accepted s m)
  then show ?case by (simp add: wait_loop_accept)
next
  case (continued s)
  then show ?case by (simp add: wait_loop_continue after_round_def)
qed

lemma strays_kept:
  "stray_msgs (wait_loop conv deadline rs s) =
     stray_msgs s @ concat (map (\<lambda>n. stray_of conv (rs n))
                              [Suc (attempts s) ..< Suc (attempts (wait_loop conv deadline rs s))])"
proof (induction s rule: wait_loop_rounds [where deadline = deadline and rs = rs and conv = conv])
  case (expired s)
  then show ?case by (simp add: wait_loop_done)
next
  case (accepted s m)
  then show ?case by (simp add: wait_loop_accept stray_of_def)
next
  case (continued s)
  let ?ev = "rs (attempts s + 1)"
  let ?s' = "after_round conv ?ev s"
  let ?f = "\<lambda>n. stray_of conv (rs n)"
  define A where "A = Suc (attempts (wait_loop conv deadline rs ?s'))"
  have w: "wait_loop conv deadline rs s = wait_loop conv deadline rs ?s'"
    using continued(1,2) by (rule wait_loop_continue)
  have a': "attempts ?s' = Suc (attempts s)"
    and st': "stray_msgs ?s' = stray_msgs s @ stray_of conv (rs (Suc (attempts s)))"
    by (simp_all add: after_round_def)
  have "attempts ?s' \<le> attempts (wait_loop conv deadline rs ?s')"
    by (rule attempts_grow)
  with a' have lt: "Suc (attempts s) < A"
    unfolding A_def by linarith
  have "stray_msgs (wait_loop conv deadline rs ?s') =
          stray_msgs ?s' @ concat (map ?f [Suc (attempts ?s') ..< A])"
    unfolding A_def by (rule continued(3))
  also have "\<dots> = stray_msgs s @ (?f (Suc (attempts s)) @ concat (map ?f [Suc (Suc (attempts s)) ..< A]))"
    by (simp only: a' st' append_assoc)
  also have "\<dots> = stray_msgs s @ concat (map ?f (Suc (attempts s) # [Suc (Suc (attempts s)) ..< A]))"
    by simp
  also have "Suc (attempts s) # [Suc (Suc (attempts s)) ..< A] = [Suc (attempts s) ..< A]"
    using lt by (simp only: upt_conv_Cons)
  finally show ?case
    by (simp only: w A_def)
qed

lemma attempts_bound:
  "attempts (wait_loop conv deadline rs s) \<le> attempts s + (deadline - now s + 999) div 1000"
proof (induction s rule: wait_loop_rounds [where deadline = deadline and rs = rs and conv = conv])
  case (expired s)
  then show ?case by (simp add: wait_loop_done)
next
  case (accepted s m)
  from accepted(1) have "1000 \<le> deadline - now s + 999" by arith
  then have "1000 div 1000 \<le> (deadline - now s + 999) div 1000" by (rule div_le_mono)
  with accepted show ?case by (simp add: wait_loop_accept)
next
  case (continued s)
  let ?s' = "after_round conv (rs (attempts s + 1)) s"
  have r: "deadline - now ?s' \<le> (deadline - now s) - 1000"
    by (simp add: after_round_def)
  have step: "(deadline - now ?s' + 999) div 1000 + 1 \<le> (deadline - now s + 999) div 1000"
  proof (cases "1000 \<le> deadline - now s")
    case True
    with r have "deadline - now ?s' + 999 + 1000 \<le> deadline - now s + 999" by arith
    then have "(deadline - now ?s' + 999 + 1000) div 1000 \<le> (deadline - now s + 999) div 1000"
      by (rule div_le_mono)
    moreover have "(deadline - now ?s' + 999 + 1000) div 1000 = (deadline - now ?s' + 999) div 1000 + 1"
      by (rule div_add_self2) simp
    ultimately show ?thesis by linarith
  next
    case False
    with r have z: "deadline - now ?s' = 0" by arith
    from continued(1) have "1000 \<le> deadline - now s + 999" by arith
    then have "1000 div 1000 \<le> (deadline - now s + 999) div 1000" by (rule div_le_mono)
    with z show ?thesis by simp
  qed
  have a': "attempts ?s' = attempts s + 1" by (simp add: after_round_def)
  have w: "wait_loop conv deadline rs s = wait_loop conv deadline rs ?s'"
    using continued(1,2) by (rule wait_loop_continue)
  from continued(3) step show ?case
    unfolding w a' by linarith
qed

lemma expired_at_end:
  "reply_msg s = None \<Longrightarrow> reply_msg (wait_loop conv deadline rs s) = None \<Longrightarrow>
     deadline \<le> now (wait_loop conv deadline rs s)"
proof (induction s rule: wait_loop_rounds [where deadline = deadline and rs = rs and conv = conv])
  case (expired s)
  then show ?case by (simp add: wait_loop_done)
next
  case (accepted s m)
  then show ?case by (simp add: wait_loop_accept)
next
  case (continued s)
  then show ?case by (simp add: wait_loop_continue after_round_def)
qed

lemma end_bound:
  assumes "\<forall>n. trigger_ms (rs n) + poll_ms (rs n) + oversleep_ms (rs n) \<le> D"
  shows "now s < deadline + D + 1000 \<Longrightarrow>
           now (wait_loop conv deadline rs s) < deadline + D + 1000"
proof (induction s rule: wait_loop_rounds [where deadline = deadline and rs = rs and conv = conv])
  case (expired s)
  then show ?case by (simp add: wait_loop_done)
next
  case (accepted s m)
  have "trigger_ms (rs (attempts s + 1)) + poll_ms (rs (attempts s + 1)) \<le> D"
    using assms [rule_format, of "attempts s + 1"] by simp
  with accepted show ?case by (simp add: wait_loop_accept)
next
  case (continued s)
  let ?ev = "rs (attempts s + 1)"
  have "trigger_ms ?ev + poll_ms ?ev + oversleep_ms ?ev \<le> D"
    using assms by blast
  with continued(1) have "now (after_round conv ?ev s) < deadline + D + 1000"
    by (simp add: after_round_def)
  with continued show ?case by (simp add: wait_loop_continue)
qed

section \<open>Claims about the Analyst step\<close>

lemma broker_poll_nonempty:
  "mailbox Q a = m # rest \<Longrightarrow> broker_poll a Q = (Ok m, snd (broker_poll a Q))"
  using poll_response [of a Q] by (simp add: prod_eq_iff)

lemma broker_poll_empty:
  "mailbox Q a = [] \<Longrightarrow> broker_poll a Q = (Empty, snd (broker_poll a Q))"
  using poll_response [of a Q] by (simp add: prod_eq_iff)

lemma pull_unfold:
  assumes "poll_ok env" and "mailbox (QUEUES w) ''Analyst'' = msg # rest"
  shows "pull_process_and_reply env w =
     (let w1 = polled_world w msg;
          pointer = dict_get (payload msg) ''pointer'' JNull
      in if \<not> truthy pointer then (Inr Ignored, w1)
         else case mcp_get env pointer of
           Inl e \<Rightarrow> (Inl e, w1)
         | Inr doc_text \<Rightarrow>
             (case call_groq env doc_text of
                Inl e \<Rightarrow> (Inl e, w1)
              | Inr analysis \<Rightarrow>
                  (let reply = \<lparr>sender = ''Analyst'', receiver = ''Researcher'',
                                type = ''confirm'',
                                payload = [(''analysis'', JStr analysis),
                                           (''source_pointer'', pointer)],
                                conv_id = conv_id msg\<rparr>
                   in if \<not> send_ok env then (Inl RequestException, w1)
                      else (Inr (ReplyEnqueued reply),
                            w1\<lparr>QUEUES := snd (broker_send reply (QUEUES w1))\<rparr>))))"
proof -
  obtain Q1 where p: "broker_poll ''Analyst'' (QUEUES w) = (Ok msg, Q1)"
    using broker_poll_nonempty [OF assms(2)] by blast
  from assms(1) show ?thesis
    by (simp add: pull_process_and_reply_def polled_world_def Let_def p)
qed

lemma pull_inbox:
  assumes "poll_ok env" and "mailbox (QUEUES w) ''Analyst'' = msg # rest"
  shows "INBOX (snd (pull_process_and_reply env w)) = INBOX w @ [msg]"
  by (simp add: pull_unfold [OF assms] polled_world_def Let_def split: sum.splits)

lemma pull_consumes:
  assumes "poll_ok env" and "mailbox (QUEUES w) ''Analyst'' = msg # rest"
  shows "mailbox (QUEUES (snd (pull_process_and_reply env w))) ''Analyst'' = rest"
  using assms(2)
  by (simp add: pull_unfold [OF assms] polled_world_def Let_def mailbox_poll mailbox_send
      split: sum.splits)

lemma pull_ignored:
  assumes "poll_ok env" and "mailbox (QUEUES w) ''Analyst'' = msg # rest"
    and "\<not> truthy (dict_get (payload msg) ''pointer'' JNull)"
  shows "pull_process_and_reply env w = (Inr Ignored, polled_world w msg)"
  using assms(3) by (simp add: pull_unfold [OF assms(1,2)] Let_def)

lemma pull_reply:
  assumes "fst (pull_process_and_reply env w) = Inr (ReplyEnqueued reply)"
    and "mailbox (QUEUES w) ''Analyst'' = msg # rest"
  shows "\<exists>doc_text analysis.
           mcp_get env (dict_get (payload msg) ''pointer'' JNull) = Inr doc_text
           \<and> call_groq env doc_text = Inr analysis
           \<and> reply = \<lparr>sender = ''Analyst'', receiver = ''Researcher'', type = ''confirm'',
                       payload = [(''analysis'', JStr analysis),
                                  (''source_pointer'', dict_get (payload msg) ''pointer'' JNull)],
                       conv_id = conv_id msg\<rparr>
           \<and> QUEUES (snd (pull_process_and_reply env w)) =
               snd (broker_send reply (snd (broker_poll ''Analyst'' (QUEUES w))))"
proof -
  have up: "poll_ok env"
    using assms(1) by (auto simp add: pull_process_and_reply_def split: if_splits)
  show ?thesis
    using assms(1)
    by (auto simp add: pull_unfold [OF up assms(2)] polled_world_def Let_def
        split: sum.splits if_splits)
qed

lemma pull_completes:
  assumes "poll_ok env" and "send_ok env" and "mailbox (QUEUES w) ''Analyst'' = msg # rest"
    and "dict_get (payload msg) ''pointer'' JNull = JStr p" and "p \<noteq> []"
    and "fetch env (last_segment p) = Inr doc_text" and "call_groq env doc_text = Inr analysis"
  shows "fst (pull_process_and_reply env w) =
           Inr (ReplyEnqueued \<lparr>sender = ''Analyst'', receiver = ''Researcher'', type = ''confirm'',
                                payload = [(''analysis'', JStr analysis), (''source_pointer'', JStr p)],
                                conv_id = conv_id msg\<rparr>)"
  using assms(2,4-7)
  by (simp add: pull_unfold [OF assms(1,3)] Let_def mcp_get_def)

text \<open>
  One round of an exchange with every service up: the step consumes the driver's request
  and the next poll for "Researcher", whose mailbox was empty, returns the reply, which
  carries the conversation id of the request.
\<close>

lemma round_trip:
  assumes "poll_ok env" and "send_ok env"
    and "mailbox (QUEUES w) ''Analyst'' = request_envelope p conv # rest"
    and "mailbox (QUEUES w) ''Researcher'' = []" and "p \<noteq> []"
    and "fetch env (last_segment p) = Inr doc_text" and "call_groq env doc_text = Inr analysis"
  shows "fst (broker_poll ''Researcher'' (QUEUES (snd (pull_process_and_reply env w)))) =
           Ok \<lparr>sender = ''Analyst'', receiver = ''Researcher'', type = ''confirm'',
                payload = [(''analysis'', JStr analysis), (''source_pointer'', JStr p)],
                conv_id = conv\<rparr>"
proof -
  have g: "dict_get (payload (request_envelope p conv)) ''pointer'' JNull = JStr p"
    by (simp add: request_envelope_def dict_get_def)
  have c: "conv_id (request_envelope p conv) = conv"
    by (simp add: request_envelope_def)
  from assms(2,4-7) g c show ?thesis
    by (simp add: pull_unfold [OF assms(1,3)] Let_def mcp_get_def polled_world_def
        poll_response mailbox_send mailbox_poll)
qed

text \<open>
  C6, as stated, at an envelope that "Frontend" sent with a pointer: the step completes,
  and the reply it sends is addressed to "Researcher", not to the sender of the inbound
  envelope; its payload has the keys "analysis" and "source\_pointer" and no key "result".
\<close>

theorem reply_envelope_counterexample:
  "mailbox (QUEUES world_F) ''Analyst'' = [env_F] \<and> sender env_F = ''Frontend''
   \<and> fst (pull_process_and_reply all_up world_F) = Inr (ReplyEnqueued reply_F)
   \<and> receiver reply_F = ''Researcher'' \<and> receiver reply_F \<noteq> sender env_F
   \<and> map_of (payload reply_F) ''result'' = None"
  by (simp add: pull_process_and_reply_def broker_poll_def broker_send_def getitem_def
      mailbox_def world_F_def env_F_def reply_F_def all_up_def dict_get_def mcp_get_def
      last_segment_def Let_def)

text \<open>
  C6 (amended). For every inbound envelope that the step processes to completion, the
  reply envelope it sends has sender "Analyst" (the step's own identity), receiver
  "Researcher" whoever sent the inbound envelope, type "confirm", a payload with the
  analysis text under "analysis" and the inbound pointer under "source\_pointer", and the
  conversation id of the inbound envelope unchanged; it is appended to the mailbox of
  "Researcher".
\<close>

theorem reply_envelope:
  assumes "fst (pull_process_and_reply env w) = Inr (ReplyEnqueued reply)"
    and "mailbox (QUEUES w) ''Analyst'' = msg # rest"
  shows "sender reply = ''Analyst'' \<and> receiver reply = ''Researcher'' \<and> type reply = ''confirm''
         \<and> conv_id reply = conv_id msg
         \<and> (\<exists>doc_text analysis.
               mcp_get env (dict_get (payload msg) ''pointer'' JNull) = Inr doc_text
               \<and> call_groq env doc_text = Inr analysis
               \<and> payload reply = [(''analysis'', JStr analysis),
                                   (''source_pointer'', dict_get (payload msg) ''pointer'' JNull)])
         \<and> mailbox (QUEUES (snd (pull_process_and_reply env w))) ''Researcher'' =
             mailbox (QUEUES w) ''Researcher'' @ [reply]"
proof -
  from pull_reply [OF assms] obtain doc_text analysis where
    d: "mcp_get env (dict_get (payload msg) ''pointer'' JNull) = Inr doc_text"
    and g: "call_groq env doc_text = Inr analysis"
    and r: "reply = \<lparr>sender = ''Analyst'', receiver = ''Researcher'', type = ''confirm'',
                     payload = [(''analysis'', JStr analysis),
                                (''source_pointer'', dict_get (payload msg) ''pointer'' JNull)],
                     conv_id = conv_id msg\<rparr>"
    and q: "QUEUES (snd (pull_process_and_reply env w)) =
              snd (broker_send reply (snd (broker_poll ''Analyst'' (QUEUES w))))"
    by blast
  have rr: "receiver reply = ''Researcher''" by (simp add: r)
  have m: "mailbox (QUEUES (snd (pull_process_and_reply env w))) ''Researcher'' =
             mailbox (QUEUES w) ''Researcher'' @ [reply]"
    by (simp add: q mailbox_send mailbox_poll rr)
  from d g have "\<exists>doc_text analysis.
               mcp_get env (dict_get (payload msg) ''pointer'' JNull) = Inr doc_text
               \<and> call_groq env doc_text = Inr analysis
               \<and> payload reply = [(''analysis'', JStr analysis),
                                   (''source_pointer'', dict_get (payload msg) ''pointer'' JNull)]"
    by (auto simp add: r)
  with m show ?thesis by (simp add: r)
qed

theorem reply_envelope_witness:
  "fst (pull_process_and_reply all_up world_F) = Inr (ReplyEnqueued reply_F)
   \<and> mailbox (QUEUES world_F) ''Analyst'' = [env_F]
   \<and> sender reply_F = ''Analyst'' \<and> receiver reply_F = ''Researcher''
   \<and> type reply_F = ''confirm'' \<and> conv_id reply_F = conv_id env_F
   \<and> mailbox (QUEUES (snd (pull_process_and_reply all_up world_F))) ''Researcher'' = [reply_F]"
proof -
  have a: "fst (pull_process_and_reply all_up world_F) = Inr (ReplyEnqueued reply_F)"
    by (simp add: pull_process_and_reply_def broker_poll_def broker_send_def getitem_def
        world_F_def env_F_def reply_F_def all_up_def dict_get_def mcp_get_def
        last_segment_def Let_def)
  have b: "mailbox (QUEUES world_F) ''Analyst'' = [env_F]"
    by (simp add: world_F_def mailbox_def)
  have c: "mailbox (QUEUES world_F) ''Researcher'' = []"
    by (simp add: world_F_def mailbox_def)
  from reply_envelope [OF a b] a b c show ?thesis
    by simp
qed

text \<open>
  C8. When the envelope that the step polls has no "pointer" in its payload, the step
  answers "ignored, no pointer" and sends no reply: the envelope is gone from the
  mailbox of "Analyst", which keeps only what was queued behind it, and every other
  mailbox is as it was.
\<close>

theorem no_pointer_ignored:
  assumes "poll_ok env" and "mailbox (QUEUES w) ''Analyst'' = msg # rest"
    and "map_of (payload msg) ''pointer'' = None"
  shows "fst (pull_process_and_reply env w) = Inr Ignored
         \<and> mailbox (QUEUES (snd (pull_process_and_reply env w))) ''Analyst'' = rest
         \<and> (\<forall>a. a \<noteq> ''Analyst'' \<longrightarrow>
               mailbox (QUEUES (snd (pull_process_and_reply env w))) a = mailbox (QUEUES w) a)"
proof -
  from assms(3) have "\<not> truthy (dict_get (payload msg) ''pointer'' JNull)"
    by (simp add: dict_get_def)
  from pull_ignored [OF assms(1,2) this] assms(2) show ?thesis
    by (simp add: polled_world_def mailbox_poll)
qed

theorem no_pointer_ignored_witness:
  "poll_ok all_up \<and> mailbox (QUEUES world_Z) ''Analyst'' = [env_Z]
   \<and> map_of (payload env_Z) ''pointer'' = None
   \<and> fst (pull_process_and_reply all_up world_Z) = Inr Ignored
   \<and> mailbox (QUEUES (snd (pull_process_and_reply all_up world_Z))) ''Analyst'' = []
   \<and> ''Researcher'' \<noteq> ''Analyst''
   \<and> mailbox (QUEUES (snd (pull_process_and_reply all_up world_Z))) ''Researcher'' = [env_R]"
proof -
  have a: "poll_ok all_up" by (simp add: all_up_def)
  have b: "mailbox (QUEUES world_Z) ''Analyst'' = [env_Z]"
    by (simp add: world_Z_def mixed_pending_def mailbox_def)
  have c: "map_of (payload env_Z) ''pointer'' = None" by (simp add: env_Z_def)
  have d: "mailbox (QUEUES world_Z) ''Researcher'' = [env_R]"
    by (simp add: world_Z_def mixed_pending_def mailbox_def)
  from no_pointer_ignored [OF a b c] a b c d show ?thesis
    by simp
qed

text \<open>
  C10. Every envelope that the step polls from the broker is appended to \<open>INBOX\<close>
  before the pointer is looked at: whatever the step does next (ignore the envelope,
  fail on the registry, on Groq or on the send, or reply), \<open>INBOX\<close> ends with the
  envelope, and the \<open>inbox\<close> endpoint returns it. In particular an envelope that is
  ignored for lack of a pointer is consumed with no reply and still recorded.
\<close>

theorem inbox_records_polled:
  assumes "poll_ok env" and "mailbox (QUEUES w) ''Analyst'' = msg # rest"
  shows "inbox (snd (pull_process_and_reply env w)) = inbox w @ [msg]
         \<and> (\<not> truthy (dict_get (payload msg) ''pointer'' JNull) \<longrightarrow>
               pull_process_and_reply env w =
                 (Inr Ignored,
                  w\<lparr>QUEUES := snd (broker_poll ''Analyst'' (QUEUES w)),
                    INBOX := INBOX w @ [msg]\<rparr>))"
  using pull_inbox [OF assms] pull_ignored [OF assms]
  by (simp add: inbox_def polled_world_def)

theorem inbox_records_polled_witness:
  "poll_ok all_up \<and> mailbox (QUEUES world_Z) ''Analyst'' = [env_Z]
   \<and> \<not> truthy (dict_get (payload env_Z) ''pointer'' JNull)
   \<and> inbox world_Z = [env_A]
   \<and> inbox (snd (pull_process_and_reply all_up world_Z)) = [env_A, env_Z]
   \<and> fst (pull_process_and_reply all_up world_Z) = Inr Ignored"
proof -
  have a: "poll_ok all_up" by (simp add: all_up_def)
  have b: "mailbox (QUEUES world_Z) ''Analyst'' = [env_Z]"
    by (simp add: world_Z_def mixed_pending_def mailbox_def)
  have c: "\<not> truthy (dict_get (payload env_Z) ''pointer'' JNull)"
    by (simp add: env_Z_def dict_get_def)
  have d: "INBOX world_Z = [env_A]" by (simp add: world_Z_def)
  from inbox_records_polled [OF a b] a b c d show ?thesis
    by (simp add: inbox_def)
qed

section \<open>Claims about the driver\<close>

text \<open>
  C2. When the Analyst step consumes a request and produces a reply, the reply carries
  the conversation id of the request and is the envelope the step appends to the mailbox
  of "Researcher"; the request is gone from the mailbox of "Analyst". So for a driver
  exchange with id \<open>C\<close> the reply that reaches the driver's mailbox has id \<open>C\<close>. In
  the driver's loop, a polled envelope whose id is \<open>C\<close> is stored as the reply and ends
  the loop at once; a polled envelope with another id is appended to the stray list and
  the loop goes on. So a reply the loop ends with has id \<open>C\<close>, and the stray list at
  the end holds, after the strays it started with, every envelope with another id that
  was polled, in the order of the rounds: none is dropped.
\<close>

theorem correlation:
  "(fst (pull_process_and_reply env w) = Inr (ReplyEnqueued reply)
      \<and> mailbox (QUEUES w) ''Analyst'' = req # rest \<and> conv_id req = C
      \<longrightarrow> conv_id reply = C
          \<and> mailbox (QUEUES (snd (pull_process_and_reply env w))) ''Researcher'' =
              mailbox (QUEUES w) ''Researcher'' @ [reply]
          \<and> mailbox (QUEUES (snd (pull_process_and_reply env w))) ''Analyst'' = rest)
   \<and> (now s < deadline \<and> polled (rs (attempts s + 1)) = Inr (Ok m) \<and> conv_id m = C
      \<longrightarrow> wait_loop C deadline rs s =
            s\<lparr>now := now s + trigger_ms (rs (attempts s + 1)) + poll_ms (rs (attempts s + 1)),
              attempts := attempts s + 1, reply_msg := Some m\<rparr>)
   \<and> (now s < deadline \<and> polled (rs (attempts s + 1)) = Inr (Ok m) \<and> conv_id m \<noteq> C
      \<longrightarrow> wait_loop C deadline rs s =
            wait_loop C deadline rs
              (s\<lparr>now := now s + trigger_ms (rs (attempts s + 1)) + poll_ms (rs (attempts s + 1))
                          + 1000 + oversleep_ms (rs (attempts s + 1)),
                 attempts := attempts s + 1, stray_msgs := stray_msgs s @ [m]\<rparr>))
   \<and> (reply_msg s = None \<and> reply_msg (wait_loop C deadline rs s) = Some r \<longrightarrow> conv_id r = C)
   \<and> stray_msgs (wait_loop C deadline rs s) =
       stray_msgs s @ concat (map (\<lambda>n. stray_of C (rs n))
                                [Suc (attempts s) ..< Suc (attempts (wait_loop C deadline rs s))])"
proof -
  have a: "fst (pull_process_and_reply env w) = Inr (ReplyEnqueued reply)
      \<and> mailbox (QUEUES w) ''Analyst'' = req # rest \<and> conv_id req = C
      \<longrightarrow> conv_id reply = C
          \<and> mailbox (QUEUES (snd (pull_process_and_reply env w))) ''Researcher'' =
              mailbox (QUEUES w) ''Researcher'' @ [reply]
          \<and> mailbox (QUEUES (snd (pull_process_and_reply env w))) ''Analyst'' = rest"
  proof (intro impI, elim conjE)
    assume f: "fst (pull_process_and_reply env w) = Inr (ReplyEnqueued reply)"
      and h: "mailbox (QUEUES w) ''Analyst'' = req # rest" and c: "conv_id req = C"
    from pull_reply [OF f h] obtain doc_text analysis where
      r: "reply = \<lparr>sender = ''Analyst'', receiver = ''Researcher'', type = ''confirm'',
                     payload = [(''analysis'', JStr analysis),
                                (''source_pointer'', dict_get (payload req) ''pointer'' JNull)],
                     conv_id = conv_id req\<rparr>"
      and q: "QUEUES (snd (pull_process_and_reply env w)) =
                snd (broker_send reply (snd (broker_poll ''Analyst'' (QUEUES w))))"
      by blast
    have rr: "receiver reply = ''Researcher''" by (simp add: r)
    have c1: "conv_id reply = C" using c by (simp add: r)
    have c2: "mailbox (QUEUES (snd (pull_process_and_reply env w))) ''Researcher'' =
                mailbox (QUEUES w) ''Researcher'' @ [reply]"
      by (simp add: q mailbox_send mailbox_poll rr)
    have c3: "mailbox (QUEUES (snd (pull_process_and_reply env w))) ''Analyst'' = rest"
      using h by (simp add: q mailbox_send mailbox_poll rr)
    from c1 c2 c3
    show "conv_id reply = C
          \<and> mailbox (QUEUES (snd (pull_process_and_reply env w))) ''Researcher'' =
              mailbox (QUEUES w) ''Researcher'' @ [reply]
          \<and> mailbox (QUEUES (snd (pull_process_and_reply env w))) ''Analyst'' = rest"
      by blast
  qed
  have b: "now s < deadline \<and> polled (rs (attempts s + 1)) = Inr (Ok m) \<and> conv_id m = C
      \<longrightarrow> wait_loop C deadline rs s =
            s\<lparr>now := now s + trigger_ms (rs (attempts s + 1)) + poll_ms (rs (attempts s + 1)),
              attempts := attempts s + 1, reply_msg := Some m\<rparr>"
    using wait_loop_accept [of s deadline rs m C] by blast
  have c: "now s < deadline \<and> polled (rs (attempts s + 1)) = Inr (Ok m) \<and> conv_id m \<noteq> C
      \<longrightarrow> wait_loop C deadline rs s =
            wait_loop C deadline rs
              (s\<lparr>now := now s + trigger_ms (rs (attempts s + 1)) + poll_ms (rs (attempts s + 1))
                          + 1000 + oversleep_ms (rs (attempts s + 1)),
                 attempts := attempts s + 1, stray_msgs := stray_msgs s @ [m]\<rparr>)"
  proof (intro impI, elim conjE)
    assume run: "now s < deadline" and p: "polled (rs (attempts s + 1)) = Inr (Ok m)"
      and ne: "conv_id m \<noteq> C"
    from p ne have nm: "\<not> matches C (rs (attempts s + 1))"
      by (simp add: matches_def)
    from p ne have "stray_of C (rs (attempts s + 1)) = [m]"
      by (simp add: stray_of_def)
    with wait_loop_continue [where s = s and deadline = deadline and conv = C and rs = rs, OF run nm]
    show "wait_loop C deadline rs s =
            wait_loop C deadline rs
              (s\<lparr>now := now s + trigger_ms (rs (attempts s + 1)) + poll_ms (rs (attempts s + 1))
                          + 1000 + oversleep_ms (rs (attempts s + 1)),
                 attempts := attempts s + 1, stray_msgs := stray_msgs s @ [m]\<rparr>)"
      by (simp add: after_round_def)
  qed
  have d: "reply_msg s = None \<and> reply_msg (wait_loop C deadline rs s) = Some r \<longrightarrow> conv_id r = C"
    using reply_has_conv [of s C deadline rs r] by blast
  note e = strays_kept [of C deadline rs s]
  from a b c d e show ?thesis by blast
qed

theorem correlation_witness:
  "fst (pull_process_and_reply all_up world_U) = Inr (ReplyEnqueued reply_u1)
   \<and> mailbox (QUEUES world_U) ''Analyst'' = [request_envelope ''ctx://note/p5'' ''conv-u1'']
   \<and> conv_id (request_envelope ''ctx://note/p5'' ''conv-u1'') = ''conv-u1''
   \<and> conv_id reply_u1 = ''conv-u1''
   \<and> mailbox (QUEUES (snd (pull_process_and_reply all_up world_U))) ''Researcher'' = [reply_u1]
   \<and> mailbox (QUEUES (snd (pull_process_and_reply all_up world_U))) ''Analyst'' = []
   \<and> fst (broker_poll ''Researcher'' (QUEUES (snd (pull_process_and_reply all_up world_U)))) =
       Ok reply_u1
   \<and> polled (script [stray_round, reply_round] slow_idle 1) = Inr (Ok env_R)
   \<and> conv_id env_R \<noteq> ''conv-u1''
   \<and> polled (script [stray_round, reply_round] slow_idle 2) = Inr (Ok reply_u1)
   \<and> wait_loop ''conv-u1'' 25000 (script [stray_round, reply_round] slow_idle) (initial 0) =
       \<lparr>now = 13010, attempts = 2, stray_msgs = [env_R], reply_msg = Some reply_u1\<rparr>"
proof -
  let ?rs = "script [stray_round, reply_round] slow_idle"
  let ?s1 = "\<lparr>now = 11000, attempts = 1, stray_msgs = [env_R], reply_msg = None\<rparr>"
  have a: "fst (pull_process_and_reply all_up world_U) = Inr (ReplyEnqueued reply_u1)"
    by (simp add: pull_process_and_reply_def broker_poll_def broker_send_def getitem_def
        world_U_def request_envelope_def reply_u1_def all_up_def dict_get_def mcp_get_def
        last_segment_def Let_def)
  have b: "mailbox (QUEUES world_U) ''Analyst'' = [request_envelope ''ctx://note/p5'' ''conv-u1'']"
    by (simp add: world_U_def mailbox_def)
  have b': "mailbox (QUEUES world_U) ''Researcher'' = []"
    by (simp add: world_U_def mailbox_def)
  have c: "conv_id (request_envelope ''ctx://note/p5'' ''conv-u1'') = ''conv-u1''"
    by (simp add: request_envelope_def)
  have p1: "polled (?rs (attempts (initial 0) + 1)) = Inr (Ok env_R)"
    by (simp add: script_def stray_round_def initial_def)
  have n1: "conv_id env_R \<noteq> ''conv-u1''" by (simp add: env_R_def)
  have p2: "polled (?rs (attempts ?s1 + 1)) = Inr (Ok reply_u1)"
    by (simp add: script_def reply_round_def)
  have c2: "conv_id reply_u1 = ''conv-u1''" by (simp add: reply_u1_def)
  have t0: "now (initial 0) < 25000" by (simp add: initial_def)
  have t1: "now ?s1 < 25000" by simp
  have first: "conv_id reply_u1 = ''conv-u1''
      \<and> mailbox (QUEUES (snd (pull_process_and_reply all_up world_U))) ''Researcher'' =
          mailbox (QUEUES world_U) ''Researcher'' @ [reply_u1]
      \<and> mailbox (QUEUES (snd (pull_process_and_reply all_up world_U))) ''Analyst'' = []"
    using correlation [where s = "initial 0" and deadline = 25000 and rs = ?rs and m = env_R
        and C = "''conv-u1''" and env = all_up and w = world_U and reply = reply_u1
        and req = "request_envelope ''ctx://note/p5'' ''conv-u1''" and rest = "[]"
        and r = reply_u1]
      a b c
    by blast
  have sent: "mailbox (QUEUES (snd (pull_process_and_reply all_up world_U))) ''Researcher'' = [reply_u1]
      \<and> mailbox (QUEUES (snd (pull_process_and_reply all_up world_U))) ''Analyst'' = []"
    using first by (simp only: b' append_Nil)
  then have polled_next:
    "fst (broker_poll ''Researcher'' (QUEUES (snd (pull_process_and_reply all_up world_U)))) =
       Ok reply_u1"
    by (simp add: poll_response)
  have step1: "wait_loop ''conv-u1'' 25000 ?rs (initial 0) = wait_loop ''conv-u1'' 25000 ?rs ?s1"
    using correlation [where s = "initial 0" and deadline = 25000 and rs = ?rs and m = env_R
        and C = "''conv-u1''" and env = all_up and w = world_U and reply = reply_u1
        and req = "request_envelope ''ctx://note/p5'' ''conv-u1''" and rest = "[]"
        and r = reply_u1]
      t0 p1 n1
    by (simp add: initial_def script_def stray_round_def)
  have step2: "wait_loop ''conv-u1'' 25000 ?rs ?s1 =
      \<lparr>now = 13010, attempts = 2, stray_msgs = [env_R], reply_msg = Some reply_u1\<rparr>"
    using correlation [where s = ?s1 and deadline = 25000 and rs = ?rs and m = reply_u1
        and C = "''conv-u1''" and env = all_up and w = world_U and reply = reply_u1
        and req = "request_envelope ''ctx://note/p5'' ''conv-u1''" and rest = "[]"
        and r = reply_u1]
      t1 p2 c2
    by (simp add: script_def reply_round_def)
  have p1': "polled (?rs 1) = Inr (Ok env_R)" and p2': "polled (?rs 2) = Inr (Ok reply_u1)"
    by (simp_all add: script_def stray_round_def reply_round_def)
  from a b c c2 sent polled_next p1' n1 p2' step1 step2 show ?thesis by simp
qed

lemma first_round:
  assumes "\<not> matches conv (rs 1)"
  shows "1 \<le> attempts (wait_loop conv (t0 + 25000) rs (initial t0))"
proof -
  let ?s = "initial t0"
  have run: "now ?s < t0 + 25000" and a0: "attempts ?s + 1 = 1"
    by (simp_all add: initial_def)
  from assms a0 have nm: "\<not> matches conv (rs (attempts ?s + 1))" by simp
  have "wait_loop conv (t0 + 25000) rs ?s =
          wait_loop conv (t0 + 25000) rs (after_round conv (rs (attempts ?s + 1)) ?s)"
    using run nm by (rule wait_loop_continue)
  moreover have "attempts (after_round conv (rs (attempts ?s + 1)) ?s) = 1"
    by (simp add: after_round_def initial_def)
  ultimately show ?thesis
    using attempts_grow [of "after_round conv (rs (attempts ?s + 1)) ?s" conv "t0 + 25000" rs]
    by simp
qed

text \<open>The round in which the wait runs out of time started before the deadline.\<close>

lemma last_round_bound:
  "now s < deadline \<Longrightarrow> reply_msg s = None \<Longrightarrow>
   reply_msg (wait_loop conv deadline rs s) = None \<Longrightarrow>
     now (wait_loop conv deadline rs s) <
       deadline + calls_ms (rs (attempts (wait_loop conv deadline rs s))) + 1000
         + oversleep_ms (rs (attempts (wait_loop conv deadline rs s)))"
proof (induction s rule: wait_loop_rounds [where deadline = deadline and rs = rs and conv = conv])
  case (expired s)
  then show ?case by simp
next
  case (accepted s m)
  then show ?case by (simp add: wait_loop_accept)
next
  case (continued s)
  let ?ev = "rs (attempts s + 1)"
  let ?s' = "after_round conv ?ev s"
  have w: "wait_loop conv deadline rs s = wait_loop conv deadline rs ?s'"
    using continued(1,2) by (rule wait_loop_continue)
  have r': "reply_msg ?s' = None"
    using continued(5) by (simp add: after_round_def)
  show ?case
  proof (cases "now ?s' < deadline")
    case True
    from continued(3) [OF True r'] continued(6) show ?thesis
      by (simp only: w)
  next
    case False
    then have f: "wait_loop conv deadline rs ?s' = ?s'"
      by (rule wait_loop_done)
    have "now ?s' = now s + calls_ms ?ev + 1000 + oversleep_ms ?ev"
      and "attempts ?s' = attempts s + 1"
      by (simp_all add: after_round_def calls_ms_def)
    with continued(1) show ?thesis
      by (simp only: w f)
  qed
qed

text \<open>
  C5, as stated, at a wait in which every call to the Analyst takes ten seconds and no
  envelope of the conversation ever arrives: the third round starts at 22 seconds, before
  the deadline of 25, and ends at 33, later than the deadline plus one polling interval
  of one second. Two strays were collected and the page shows the first one only.
\<close>

theorem deadline_counterexample:
  "\<not> matches ''conv-u1'' stray_round \<and> \<not> matches ''conv-u1'' stray_round2
   \<and> \<not> matches ''conv-u1'' slow_idle
   \<and> wait_loop ''conv-u1'' 25000 (script [stray_round, stray_round2] slow_idle) (initial 0) =
       \<lparr>now = 33000, attempts = 3, stray_msgs = [env_R, env_R2], reply_msg = None\<rparr>
   \<and> \<not> (33000 \<le> (25000::nat) + 1000)
   \<and> run_pipeline slow_env query_hi =
       NoReply \<lparr>sb_attempts = 3, sb_pointer = ''ctx://note/p5'', sb_enqueue = Enqueued ''Analyst'' 1\<rparr>
         (Some env_R)"
proof -
  have w: "wait_loop ''conv-u1'' 25000 (script [stray_round, stray_round2] slow_idle) (initial 0) =
       \<lparr>now = 33000, attempts = 3, stray_msgs = [env_R, env_R2], reply_msg = None\<rparr>"
    by (simp add: wait_loop.simps initial_def script_def stray_round_def stray_round2_def
        slow_idle_def env_R_def env_R2_def Let_def)
  have m: "\<not> matches ''conv-u1'' stray_round \<and> \<not> matches ''conv-u1'' stray_round2
        \<and> \<not> matches ''conv-u1'' slow_idle"
    by (simp add: matches_def stray_round_def stray_round2_def slow_idle_def env_R_def env_R2_def)
  have q: "strip query_hi = [0x68, 0x69]"
    by (simp add: strip_def query_hi_def is_space_def)
  have p: "run_pipeline slow_env query_hi =
       NoReply \<lparr>sb_attempts = 3, sb_pointer = ''ctx://note/p5'', sb_enqueue = Enqueued ''Analyst'' 1\<rparr>
         (Some env_R)"
    by (simp add: run_pipeline_def q slow_env_def w Let_def request_envelope_def stray_block_def)
  from w m p show ?thesis by simp
qed

text \<open>
  C5 (amended). If no envelope with the exchange's conversation id ever appears in the
  driver's polls, the loop ends with no reply after at least one and at most 25 rounds:
  it never runs for ever. It ends at or after the deadline and before the deadline plus
  the time of its last round, which is the time of that round's call to the Analyst and
  of its poll of the broker, plus the sleep of one polling interval of one second and
  whatever that sleep overruns; when the last round's calls take no time and its sleep
  does not overrun, this is the deadline plus one polling interval. The page is the "no
  reply" page: it shows the attempts count, and of the strays collected during the wait,
  which are all those polled and in order, it shows the first, and no stray block when
  none was collected.
\<close>

theorem deadline_bound:
  assumes "\<forall>n. \<not> matches (''conv-'' @ uuid4 env) (rounds env n)"
    and "mcp_put env (strip query) = Inr pointer"
    and "send_request env (request_envelope pointer (''conv-'' @ uuid4 env)) = Inr send_resp"
  shows "let s = wait_loop (''conv-'' @ uuid4 env) (start env + 25000) (rounds env)
                   (initial (start env));
             last_round = rounds env (attempts s)
         in reply_msg s = None
            \<and> 1 \<le> attempts s \<and> attempts s \<le> 25
            \<and> start env + 25000 \<le> now s
            \<and> now s < start env + 25000 + trigger_ms last_round + poll_ms last_round + 1000
                        + oversleep_ms last_round
            \<and> stray_msgs s =
                concat (map (\<lambda>n. stray_of (''conv-'' @ uuid4 env) (rounds env n))
                          [1 ..< Suc (attempts s)])
            \<and> run_pipeline env query =
                NoReply \<lparr>sb_attempts = attempts s, sb_pointer = pointer, sb_enqueue = send_resp\<rparr>
                  (case stray_msgs s of [] \<Rightarrow> None | first_stray # others \<Rightarrow> Some first_stray)"
proof -
  let ?conv = "''conv-'' @ uuid4 env"
  let ?s = "wait_loop ?conv (start env + 25000) (rounds env) (initial (start env))"
  have i: "reply_msg (initial (start env)) = None" "attempts (initial (start env)) = 0"
    "stray_msgs (initial (start env)) = []" "now (initial (start env)) = start env"
    by (simp_all add: initial_def)
  have r: "reply_msg ?s = None"
    using i(1) assms(1) by (rule no_match_no_reply)
  have "\<not> matches ?conv (rounds env 1)"
    using assms(1) by blast
  then have a1: "1 \<le> attempts ?s"
    by (rule first_round)
  have a2: "attempts ?s \<le> 25"
    using attempts_bound [of ?conv "start env + 25000" "rounds env" "initial (start env)"]
    by (simp add: i)
  have t1: "start env + 25000 \<le> now ?s"
    using i(1) r by (rule expired_at_end)
  have run: "now (initial (start env)) < start env + 25000"
    by (simp add: i)
  have t2: "now ?s < start env + 25000 + trigger_ms (rounds env (attempts ?s))
                + poll_ms (rounds env (attempts ?s)) + 1000
                + oversleep_ms (rounds env (attempts ?s))"
    using last_round_bound [OF run i(1) r] by (simp add: calls_ms_def)
  have st: "stray_msgs ?s = concat (map (\<lambda>n. stray_of ?conv (rounds env n)) [1 ..< Suc (attempts ?s)])"
    using strays_kept [of ?conv "start env + 25000" "rounds env" "initial (start env)"]
    by (simp only: i append_Nil One_nat_def)
  have p: "run_pipeline env query =
             NoReply \<lparr>sb_attempts = attempts ?s, sb_pointer = pointer, sb_enqueue = send_resp\<rparr>
               (case stray_msgs ?s of [] \<Rightarrow> None | first_stray # others \<Rightarrow> Some first_stray)"
    using assms(2,3) r by (simp add: run_pipeline_def Let_def stray_block_def)
  from r a1 a2 t1 t2 st p show ?thesis
    by (simp only: Let_def)
qed

theorem deadline_bound_witness:
  "\<not> matches (''conv-'' @ uuid4 slow_env) stray_round
   \<and> \<not> matches (''conv-'' @ uuid4 slow_env) stray_round2
   \<and> \<not> matches (''conv-'' @ uuid4 slow_env) slow_idle
   \<and> strip query_hi = [0x68, 0x69]
   \<and> mcp_put slow_env (strip query_hi) = Inr ''ctx://note/p5''
   \<and> send_request slow_env (request_envelope ''ctx://note/p5'' (''conv-'' @ uuid4 slow_env)) =
       Inr (Enqueued ''Analyst'' 1)
   \<and> wait_loop ''conv-u1'' 25000 (rounds slow_env) (initial 0) =
       \<lparr>now = 33000, attempts = 3, stray_msgs = [env_R, env_R2], reply_msg = None\<rparr>
   \<and> rounds slow_env 3 = slow_idle
   \<and> (33000::nat) < 25000 + trigger_ms slow_idle + poll_ms slow_idle + 1000 + oversleep_ms slow_idle
   \<and> run_pipeline slow_env query_hi =
       NoReply \<lparr>sb_attempts = 3, sb_pointer = ''ctx://note/p5'', sb_enqueue = Enqueued ''Analyst'' 1\<rparr>
         (Some env_R)
   \<and> \<not> matches (''conv-'' @ uuid4 down_env) down_round
   \<and> mcp_put down_env (strip query_hi) = Inr ''ctx://note/p5''
   \<and> send_request down_env (request_envelope ''ctx://note/p5'' (''conv-'' @ uuid4 down_env)) =
       Inr (Enqueued ''Analyst'' 1)
   \<and> reply_msg (wait_loop ''conv-u1'' 25000 (rounds down_env) (initial 0)) = None
   \<and> attempts (wait_loop ''conv-u1'' 25000 (rounds down_env) (initial 0)) \<le> 25
   \<and> 25000 \<le> now (wait_loop ''conv-u1'' 25000 (rounds down_env) (initial 0))
   \<and> now (wait_loop ''conv-u1'' 25000 (rounds down_env) (initial 0)) < 26000
   \<and> stray_msgs (wait_loop ''conv-u1'' 25000 (rounds down_env) (initial 0)) = []
   \<and> run_pipeline down_env query_hi =
       NoReply \<lparr>sb_attempts = attempts (wait_loop ''conv-u1'' 25000 (rounds down_env) (initial 0)),
                sb_pointer = ''ctx://note/p5'', sb_enqueue = Enqueued ''Analyst'' 1\<rparr>
         None"
proof -
  have q: "strip query_hi = [0x68, 0x69]"
    by (simp add: strip_def query_hi_def is_space_def)
  have rs: "rounds slow_env = script [stray_round, stray_round2] slow_idle"
    and us: "uuid4 slow_env = ''u1''" and ss: "start slow_env = 0"
    by (simp_all add: slow_env_def)
  have ms: "\<not> matches (''conv-'' @ uuid4 slow_env) stray_round
        \<and> \<not> matches (''conv-'' @ uuid4 slow_env) stray_round2
        \<and> \<not> matches (''conv-'' @ uuid4 slow_env) slow_idle"
    by (simp add: us matches_def stray_round_def stray_round2_def slow_idle_def env_R_def env_R2_def)
  have sc3: "script [stray_round, stray_round2] slow_idle n \<in> {stray_round, stray_round2, slow_idle}"
    for n
  proof -
    have "n = 0 \<or> n = 1 \<or> n = 2 \<or> 3 \<le> n" by arith
    then show ?thesis
      by (elim disjE) (simp_all add: script_def)
  qed
  have hs1: "\<forall>n. \<not> matches (''conv-'' @ uuid4 slow_env) (rounds slow_env n)"
  proof
    fix n
    from sc3 [of n] ms show "\<not> matches (''conv-'' @ uuid4 slow_env) (rounds slow_env n)"
      by (auto simp add: rs)
  qed
  have hs2: "mcp_put slow_env (strip query_hi) = Inr ''ctx://note/p5''"
    by (simp add: q slow_env_def)
  have hs3: "send_request slow_env (request_envelope ''ctx://note/p5'' (''conv-'' @ uuid4 slow_env)) =
       Inr (Enqueued ''Analyst'' 1)"
    by (simp add: slow_env_def request_envelope_def)
  have ws: "wait_loop ''conv-u1'' 25000 (rounds slow_env) (initial 0) =
       \<lparr>now = 33000, attempts = 3, stray_msgs = [env_R, env_R2], reply_msg = None\<rparr>"
    by (simp add: rs wait_loop.simps initial_def script_def stray_round_def stray_round2_def
        slow_idle_def env_R_def env_R2_def Let_def)
  have r3: "rounds slow_env 3 = slow_idle"
    by (simp add: rs script_def)
  have slow: "(33000::nat) < 25000 + trigger_ms slow_idle + poll_ms slow_idle + 1000
                + oversleep_ms slow_idle
      \<and> run_pipeline slow_env query_hi =
          NoReply \<lparr>sb_attempts = 3, sb_pointer = ''ctx://note/p5'', sb_enqueue = Enqueued ''Analyst'' 1\<rparr>
            (Some env_R)"
    using deadline_bound [OF hs1 hs2 hs3]
    by (simp add: Let_def us ss ws r3)
  have rd: "rounds down_env = script [] down_round" and ud: "uuid4 down_env = ''u1''"
    and sd: "start down_env = 0"
    by (simp_all add: down_env_def)
  have sc: "\<And>n. script [] down_round n = down_round"
    by (auto simp add: script_def)
  have md: "\<not> matches (''conv-'' @ uuid4 down_env) down_round"
    by (simp add: matches_def down_round_def)
  have hd1: "\<forall>n. \<not> matches (''conv-'' @ uuid4 down_env) (rounds down_env n)"
    using md by (simp add: rd sc)
  have hd2: "mcp_put down_env (strip query_hi) = Inr ''ctx://note/p5''"
    by (simp add: q down_env_def)
  have hd3: "send_request down_env (request_envelope ''ctx://note/p5'' (''conv-'' @ uuid4 down_env)) =
       Inr (Enqueued ''Analyst'' 1)"
    by (simp add: down_env_def request_envelope_def)
  have rdn: "\<And>n. rounds down_env n = down_round"
    by (simp only: rd sc)
  have z: "trigger_ms down_round = 0" "poll_ms down_round = 0" "oversleep_ms down_round = 0"
    by (simp_all add: down_round_def)
  have cu: "''conv-'' @ uuid4 down_env = ''conv-u1''"
    by (simp add: ud)
  have sd0: "stray_of ''conv-u1'' down_round = []"
    by (simp add: stray_of_def down_round_def)
  have nil_concat: "concat (map (\<lambda>n. []) ns) = ([] :: a2a_message list)" for ns :: "nat list"
    by (induction ns) simp_all
  have down: "reply_msg (wait_loop ''conv-u1'' 25000 (rounds down_env) (initial 0)) = None
   \<and> attempts (wait_loop ''conv-u1'' 25000 (rounds down_env) (initial 0)) \<le> 25
   \<and> 25000 \<le> now (wait_loop ''conv-u1'' 25000 (rounds down_env) (initial 0))
   \<and> now (wait_loop ''conv-u1'' 25000 (rounds down_env) (initial 0)) < 26000
   \<and> stray_msgs (wait_loop ''conv-u1'' 25000 (rounds down_env) (initial 0)) = []
   \<and> run_pipeline down_env query_hi =
       NoReply \<lparr>sb_attempts = attempts (wait_loop ''conv-u1'' 25000 (rounds down_env) (initial 0)),
                sb_pointer = ''ctx://note/p5'', sb_enqueue = Enqueued ''Analyst'' 1\<rparr>
         None"
    using deadline_bound [OF hd1 hd2 hd3]
    by (simp only: Let_def rdn z cu sd) (simp add: sd0 nil_concat)
  from ms q hs2 hs3 ws r3 slow md hd2 hd3 down show ?thesis
    by simp
qed

end
